theory Spec2Isabelle
  imports Complex_Main
begin

section \<open>Path-integration rover: embedding of sensor.py and rover.py\<close>

text \<open>
  The Python floats of the program are modelled as exact reals, so every statement below is
  about the program over exact arithmetic. A numpy array of two floats is a pair of reals.
  Console output (\<open>print\<close>) is not part of the model.
\<close>

subsection \<open>The numpy functions the program calls\<close>

type_synonym vec2 = "real \<times> real"

definition vadd :: "vec2 \<Rightarrow> vec2 \<Rightarrow> vec2" where
  "vadd a b = (fst a + fst b, snd a + snd b)"

definition vsub :: "vec2 \<Rightarrow> vec2 \<Rightarrow> vec2" where
  "vsub a b = (fst a - fst b, snd a - snd b)"

text \<open>\<open>np.linalg.norm\<close> of a vector of two components.\<close>

definition linalg_norm :: "vec2 \<Rightarrow> real" where
  "linalg_norm v = sqrt ((fst v)\<^sup>2 + (snd v)\<^sup>2)"

definition deg2rad :: "real \<Rightarrow> real" where
  "deg2rad d = d * pi / 180"

text \<open>
  \<open>np.arctan2 y x\<close>: the angle of the point \<open>(x, y)\<close> in \<open>(-pi, pi]\<close>, with value \<open>0\<close>
  at the origin.
\<close>

definition arctan2 :: "real \<Rightarrow> real \<Rightarrow> real" where
  "arctan2 y x =
     (if 0 < x then arctan (y / x)
      else if x < 0 then (if 0 \<le> y then arctan (y / x) + pi else arctan (y / x) - pi)
      else if 0 < y then pi / 2
      else if y < 0 then - (pi / 2)
      else 0)"

text \<open>
  The operator \<open>%\<close> on floats, with a positive right operand: the result has the sign of the
  divisor.
\<close>

definition float_mod :: "real \<Rightarrow> real \<Rightarrow> real" where
  "float_mod x m = x - m * of_int \<lfloor>x / m\<rfloor>"

text \<open>
  The process-wide generator behind \<open>np.random.normal\<close>. Its state is the sequence of
  standard normal variates it is going to produce and the number of variates drawn so far.
  \<open>np.random.normal loc scale\<close> rejects a negative scale with \<open>ValueError\<close> before drawing;
  otherwise it draws one variate \<open>z\<close> and returns \<open>loc + scale * z\<close>.
\<close>

record random_state =
  variates :: "nat \<Rightarrow> real"
  drawn :: nat

datatype error = ValueError

definition random_normal :: "real \<Rightarrow> real \<Rightarrow> random_state \<Rightarrow> error + real \<times> random_state" where
  "random_normal loc scale g =
     (if scale < 0 then Inl ValueError
      else Inr (loc + scale * variates g (drawn g), g\<lparr>drawn := drawn g + 1\<rparr>))"

subsection \<open>sensor.py: class PolarizedLightSensor\<close>

record PolarizedLightSensor =
  noise_level :: real
  sun_azimuth :: real

definition PolarizedLightSensor_init :: "real \<Rightarrow> PolarizedLightSensor" where
  "PolarizedLightSensor_init nl = \<lparr>noise_level = nl, sun_azimuth = 0\<rparr>"

definition set_sun_position :: "real \<Rightarrow> PolarizedLightSensor \<Rightarrow> PolarizedLightSensor" where
  "set_sun_position azimuth_degrees s = s\<lparr>sun_azimuth := deg2rad azimuth_degrees\<rparr>"

definition get_sun_direction ::
  "PolarizedLightSensor \<Rightarrow> random_state \<Rightarrow> error + real \<times> random_state" where
  "get_sun_direction s g =
     (case random_normal 0 (noise_level s) g of
        Inl e \<Rightarrow> Inl e
      | Inr (noise, g') \<Rightarrow> Inr (sun_azimuth s + noise, g'))"

definition get_sun_vector ::
  "PolarizedLightSensor \<Rightarrow> random_state \<Rightarrow> error + vec2 \<times> random_state" where
  "get_sun_vector s g =
     (case get_sun_direction s g of
        Inl e \<Rightarrow> Inl e
      | Inr (angle, g') \<Rightarrow> Inr ((cos angle, sin angle), g'))"

definition calibrate :: "real \<Rightarrow> PolarizedLightSensor \<Rightarrow> PolarizedLightSensor" where
  "calibrate known_sun_position s = set_sun_position known_sun_position s"

subsection \<open>rover.py: class AntInspiredRover\<close>

record AntInspiredRover =
  position :: vec2
  home :: vec2
  home_vector :: vec2
  heading :: real
  distance_traveled :: real
  sensor :: PolarizedLightSensor
  speed :: real
  path_history :: "vec2 list"
  home_vector_history :: "vec2 list"

definition AntInspiredRover_init :: "vec2 \<Rightarrow> real \<Rightarrow> AntInspiredRover" where
  "AntInspiredRover_init start_position sensor_noise =
     \<lparr>position = start_position,
      home = start_position,
      home_vector = (0, 0),
      heading = 0,
      distance_traveled = 0,
      sensor = PolarizedLightSensor_init sensor_noise,
      speed = 1,
      path_history = [start_position],
      home_vector_history = [(0, 0)]\<rparr>"

text \<open>
  \<open>move_forward\<close> updates the two arrays in place and appends a copy of each to its
  history, so the entries already in the histories are not affected by later moves.
\<close>

definition move_forward :: "real \<Rightarrow> AntInspiredRover \<Rightarrow> AntInspiredRover" where
  "move_forward distance r =
     (let movement = (distance * cos (heading r), distance * sin (heading r));
          position' = vadd (position r) movement;
          home_vector' = vsub (home_vector r) movement
      in r\<lparr>position := position',
            home_vector := home_vector',
            distance_traveled := distance_traveled r + distance,
            path_history := path_history r @ [position'],
            home_vector_history := home_vector_history r @ [home_vector']\<rparr>)"

definition turn :: "real \<Rightarrow> AntInspiredRover \<Rightarrow> AntInspiredRover" where
  "turn angle_degrees r =
     r\<lparr>heading := float_mod (heading r + deg2rad angle_degrees) (2 * pi)\<rparr>"

text \<open>
  \<open>align_to_sun\<close> also computes a local \<open>turn_needed\<close>, which it never uses; the heading
  is assigned the target heading itself.
\<close>

definition align_to_sun ::
  "real \<Rightarrow> AntInspiredRover \<Rightarrow> random_state \<Rightarrow> error + AntInspiredRover \<times> random_state" where
  "align_to_sun target_angle_to_sun r g =
     (case get_sun_direction (sensor r) g of
        Inl e \<Rightarrow> Inl e
      | Inr (sun_direction, g') \<Rightarrow>
          (let target_heading = sun_direction + deg2rad target_angle_to_sun
           in Inr (r\<lparr>heading := target_heading\<rparr>, g')))"

definition get_home_direction :: "AntInspiredRover \<Rightarrow> real" where
  "get_home_direction r =
     (if linalg_norm (home_vector r) < 1 / 100 then heading r
      else arctan2 (snd (home_vector r)) (fst (home_vector r)))"

definition get_home_distance :: "AntInspiredRover \<Rightarrow> real" where
  "get_home_distance r = linalg_norm (home_vector r)"

definition navigate_home :: "AntInspiredRover \<Rightarrow> AntInspiredRover" where
  "navigate_home r = (let home_direction = get_home_direction r in r\<lparr>heading := home_direction\<rparr>)"

definition execute_foraging_run :: "(real \<times> real) list \<Rightarrow> AntInspiredRover \<Rightarrow> AntInspiredRover" where
  "execute_foraging_run moves r =
     fold (\<lambda>(angle, distance) r. move_forward distance (turn angle r)) moves r"

text \<open>
  The body of the \<open>while\<close> loop of \<open>execute_return_home\<close>, without the step counter, and
  the loop itself. The loop need not terminate, so it returns an option: \<open>None\<close> stands for
  a loop that runs forever.
\<close>

definition return_home_body :: "real \<Rightarrow> AntInspiredRover \<Rightarrow> AntInspiredRover" where
  "return_home_body step_size r =
     (let r1 = navigate_home r;
          move_distance = min step_size (get_home_distance r1)
      in move_forward move_distance r1)"

partial_function (option) return_home_loop ::
  "real \<Rightarrow> AntInspiredRover \<Rightarrow> nat \<Rightarrow> (nat \<times> AntInspiredRover) option" where
  "return_home_loop step_size r steps =
     (if get_home_distance r > 1 / 2
      then return_home_loop step_size (return_home_body step_size r) (steps + 1)
      else Some (steps, r))"

definition execute_return_home :: "real \<Rightarrow> AntInspiredRover \<Rightarrow> (nat \<times> AntInspiredRover) option" where
  "execute_return_home step_size r = return_home_loop step_size r 0"


subsection \<open>Sequences of calls\<close>

text \<open>
  The calls a client makes on a rover (the mutators of the rover and of the sensor it owns),
  and their execution on the rover together with the state of the generator. A call that
  raises ends the sequence with its error.
\<close>

datatype command =
    Turn real
  | MoveForward real
  | AlignToSun real
  | NavigateHome
  | SetSunPosition real

type_synonym world = "AntInspiredRover \<times> random_state"

fun exec_command :: "command \<Rightarrow> world \<Rightarrow> error + world" where
  "exec_command (Turn a) (r, g) = Inr (turn a r, g)"
| "exec_command (MoveForward d) (r, g) = Inr (move_forward d r, g)"
| "exec_command (AlignToSun t) (r, g) = align_to_sun t r g"
| "exec_command NavigateHome (r, g) = Inr (navigate_home r, g)"
| "exec_command (SetSunPosition a) (r, g) = Inr (r\<lparr>sensor := set_sun_position a (sensor r)\<rparr>, g)"

fun run_commands :: "command list \<Rightarrow> world \<Rightarrow> error + world" where
  "run_commands [] w = Inr w"
| "run_commands (c # cs) w =
     (case exec_command c w of Inl e \<Rightarrow> Inl e | Inr w' \<Rightarrow> run_commands cs w')"

fun is_move :: "command \<Rightarrow> bool" where
  "is_move (MoveForward d) = True"
| "is_move c = False"

fun turn_or_move :: "command \<Rightarrow> bool" where
  "turn_or_move (Turn a) = True"
| "turn_or_move (MoveForward d) = True"
| "turn_or_move c = False"

fun move_distances :: "command list \<Rightarrow> real list" where
  "move_distances [] = []"
| "move_distances (MoveForward d # cs) = d # move_distances cs"
| "move_distances (c # cs) = move_distances cs"

definition path_integrated :: "AntInspiredRover \<Rightarrow> bool" where
  "path_integrated r \<longleftrightarrow> home_vector r = vsub (home r) (position r)"

definition logged :: "AntInspiredRover \<Rightarrow> bool" where
  "logged r \<longleftrightarrow>
     path_history r \<noteq> [] \<and> last (path_history r) = position r \<and>
     home_vector_history r \<noteq> [] \<and> last (home_vector_history r) = home_vector r"

text \<open>
  The calls \<open>execute_foraging_run\<close> makes, in order: a turn and then a move for each pair.
\<close>

fun foraging_commands :: "(real \<times> real) list \<Rightarrow> command list" where
  "foraging_commands [] = []"
| "foraging_commands ((angle, distance) # moves) =
     Turn angle # MoveForward distance # foraging_commands moves"

subsection \<open>The same arithmetic in double precision\<close>

text \<open>
  The program computes in IEEE 754 binary64. \<open>round_f64\<close> rounds a real to the nearest
  double, ties to the even significand (53 bits); overflow and subnormal numbers are left
  out, so it is the rounding of the program for values in the normal range. Every float
  operation of the program returns the rounded exact result. The library's \<open>cos\<close> and
  \<open>sin\<close> are taken as the rounded exact values; at \<open>0\<close> they are \<open>1\<close> and \<open>0\<close> in every
  implementation.
\<close>

definition round_half_even :: "real \<Rightarrow> int" where
  "round_half_even m =
     (let f = \<lfloor>m\<rfloor>; d = m - of_int f
      in if d < 1 / 2 then f else if 1 / 2 < d then f + 1 else if even f then f else f + 1)"

definition round_f64 :: "real \<Rightarrow> real" where
  "round_f64 x =
     (if x = 0 then 0
      else (let e = \<lfloor>log 2 \<bar>x\<bar>\<rfloor>; u = 2 powr of_int (e - 52)
            in of_int (round_half_even (x / u)) * u))"

definition cos_f64 :: "real \<Rightarrow> real" where
  "cos_f64 h = round_f64 (cos h)"

definition sin_f64 :: "real \<Rightarrow> real" where
  "sin_f64 h = round_f64 (sin h)"

text \<open>
  The constructor and \<open>move_forward\<close> with every operation rounded: \<open>np.array\<close> converts
  the start position to doubles, and each product, sum and difference is one float
  operation.
\<close>

definition AntInspiredRover_init_f64 :: "vec2 \<Rightarrow> real \<Rightarrow> AntInspiredRover" where
  "AntInspiredRover_init_f64 start_position sensor_noise =
     AntInspiredRover_init (round_f64 (fst start_position), round_f64 (snd start_position))
       sensor_noise"

definition move_forward_f64 :: "real \<Rightarrow> AntInspiredRover \<Rightarrow> AntInspiredRover" where
  "move_forward_f64 distance r =
     (let movement = (round_f64 (distance * cos_f64 (heading r)),
                      round_f64 (distance * sin_f64 (heading r)));
          position' = (round_f64 (fst (position r) + fst movement),
                       round_f64 (snd (position r) + snd movement));
          home_vector' = (round_f64 (fst (home_vector r) - fst movement),
                          round_f64 (snd (home_vector r) - snd movement))
      in r\<lparr>position := position',
            home_vector := home_vector',
            distance_traveled := round_f64 (distance_traveled r + distance),
            path_history := path_history r @ [position'],
            home_vector_history := home_vector_history r @ [home_vector']\<rparr>)"

text \<open>
  Two floats agree within a relative tolerance \<open>rel\<close> when their difference is at most
  \<open>rel\<close> times the larger of their magnitudes.
\<close>

definition within_relative_tolerance :: "real \<Rightarrow> real \<Rightarrow> real \<Rightarrow> bool" where
  "within_relative_tolerance rel a b \<longleftrightarrow> \<bar>a - b\<bar> \<le> rel * max \<bar>a\<bar> \<bar>b\<bar>"

section \<open>Geometry of the homing step\<close>

lemma norm_pos_iff: "0 < sqrt (x\<^sup>2 + y\<^sup>2) \<longleftrightarrow> (x \<noteq> 0 \<or> y \<noteq> (0::real))"
  by (simp add: sum_power2_gt_zero_iff)

lemma sqrt_ratio_pos:
  assumes "0 < (x::real)"
  shows "sqrt (1 + (y / x)\<^sup>2) = sqrt (x\<^sup>2 + y\<^sup>2) / x"
proof -
  have "1 + (y / x)\<^sup>2 = (x\<^sup>2 + y\<^sup>2) / x\<^sup>2"
    using assms by (simp add: field_simps power2_eq_square)
  then have "sqrt (1 + (y / x)\<^sup>2) = sqrt (x\<^sup>2 + y\<^sup>2) / sqrt (x\<^sup>2)"
    by (simp add: real_sqrt_divide)
  then show ?thesis using assms by simp
qed

lemma sqrt_ratio_neg:
  assumes "(x::real) < 0"
  shows "sqrt (1 + (y / x)\<^sup>2) = - (sqrt (x\<^sup>2 + y\<^sup>2) / x)"
proof -
  have "1 + (y / x)\<^sup>2 = (x\<^sup>2 + y\<^sup>2) / x\<^sup>2"
    using assms by (simp add: field_simps power2_eq_square)
  then have "sqrt (1 + (y / x)\<^sup>2) = sqrt (x\<^sup>2 + y\<^sup>2) / sqrt (x\<^sup>2)"
    by (simp add: real_sqrt_divide)
  then show ?thesis using assms by simp
qed

lemma cos_arctan2:
  assumes "x \<noteq> 0 \<or> y \<noteq> 0"
  shows "cos (arctan2 y x) = x / sqrt (x\<^sup>2 + y\<^sup>2)"
proof -
  consider "0 < x" | "x < 0" | "x = 0" "0 < y" | "x = 0" "y < 0"
    using assms by linarith
  then show ?thesis
  proof cases
    case 1
    then show ?thesis by (simp add: arctan2_def cos_arctan sqrt_ratio_pos)
  next
    case 2
    then show ?thesis by (simp add: arctan2_def cos_arctan sqrt_ratio_neg)
  next
    case 3
    then show ?thesis by (simp add: arctan2_def)
  next
    case 4
    then show ?thesis by (simp add: arctan2_def)
  qed
qed

lemma sin_arctan2:
  assumes "x \<noteq> 0 \<or> y \<noteq> 0"
  shows "sin (arctan2 y x) = y / sqrt (x\<^sup>2 + y\<^sup>2)"
proof -
  consider "0 < x" | "x < 0" | "x = 0" "0 < y" | "x = 0" "y < 0"
    using assms by linarith
  then show ?thesis
  proof cases
    case 1
    then show ?thesis by (simp add: arctan2_def sin_arctan sqrt_ratio_pos)
  next
    case 2
    then show ?thesis by (simp add: arctan2_def sin_arctan sqrt_ratio_neg)
  next
    case 3
    then show ?thesis by (simp add: arctan2_def)
  next
    case 4
    then show ?thesis by (simp add: arctan2_def)
  qed
qed

lemma body_home_vector:
  assumes "1 / 100 \<le> linalg_norm (home_vector r)"
  shows "home_vector (return_home_body s r) =
    (let D = linalg_norm (home_vector r); m = min s D in
      ((1 - m / D) * fst (home_vector r), (1 - m / D) * snd (home_vector r)))"
proof -
  obtain x y where hv: "home_vector r = (x, y)" by (cases "home_vector r")
  have "0 < linalg_norm (home_vector r)" using assms by linarith
  then have pos: "0 < sqrt (x\<^sup>2 + y\<^sup>2)" using hv by (simp add: linalg_norm_def)
  then have nz: "x \<noteq> 0 \<or> y \<noteq> 0" by auto
  have hd: "get_home_direction r = arctan2 y x"
    using assms hv by (simp add: get_home_direction_def)
  show ?thesis
    using pos
    by (simp add: return_home_body_def navigate_home_def move_forward_def Let_def hd hv
        get_home_distance_def vsub_def linalg_norm_def cos_arctan2 [OF nz] sin_arctan2 [OF nz]
        field_simps)
qed

lemma linalg_norm_scale: "linalg_norm (c * x, c * y) = \<bar>c\<bar> * linalg_norm (x, y)"
proof -
  have "(c * x)\<^sup>2 + (c * y)\<^sup>2 = c\<^sup>2 * (x\<^sup>2 + y\<^sup>2)"
    by (simp add: power_mult_distrib distrib_left)
  then show ?thesis
    by (simp add: linalg_norm_def real_sqrt_mult)
qed

lemma body_home_distance:
  assumes "1 / 100 \<le> get_home_distance r"
  shows "get_home_distance (return_home_body s r) =
    get_home_distance r - min s (get_home_distance r)"
proof -
  define D where "D = linalg_norm (home_vector r)"
  define m where "m = min s D"
  have Dpos: "0 < D" using assms by (simp add: D_def get_home_distance_def)
  have mD: "m \<le> D" by (simp add: m_def)
  have "home_vector (return_home_body s r) =
      ((1 - m / D) * fst (home_vector r), (1 - m / D) * snd (home_vector r))"
    using body_home_vector [of r s] assms
    by (simp add: D_def m_def get_home_distance_def Let_def)
  then have "get_home_distance (return_home_body s r) = \<bar>1 - m / D\<bar> * D"
    by (simp add: get_home_distance_def linalg_norm_scale D_def)
  also have "\<bar>1 - m / D\<bar> = 1 - m / D"
    using Dpos mD by (simp add: field_simps)
  also have "(1 - m / D) * D = D - m"
    using Dpos by (simp add: field_simps)
  finally show ?thesis by (simp add: D_def m_def get_home_distance_def)
qed

lemma loop_diverges_aux:
  assumes "return_home_loop s r k = Some y"
  shows "s \<le> 0 \<longrightarrow> \<not> 1 / 2 < get_home_distance r"
proof (rule return_home_loop.raw_induct
    [where P = "\<lambda>s r k y. s \<le> 0 \<longrightarrow> \<not> 1 / 2 < get_home_distance r", OF _ assms])
  fix f :: "real \<Rightarrow> AntInspiredRover \<Rightarrow> nat \<Rightarrow> (nat \<times> AntInspiredRover) option"
  fix s r k y
  assume IH: "\<And>s r k y. f s r k = Some y \<Longrightarrow> s \<le> 0 \<longrightarrow> \<not> 1 / 2 < get_home_distance r"
  assume eq: "(if 1 / 2 < get_home_distance r then f s (return_home_body s r) (k + 1)
      else Some (k, r)) = Some y"
  show "s \<le> 0 \<longrightarrow> \<not> 1 / 2 < get_home_distance r"
  proof (intro impI notI)
    assume neg: "s \<le> 0" and far: "1 / 2 < get_home_distance r"
    then have d: "get_home_distance (return_home_body s r) =
        get_home_distance r - min s (get_home_distance r)"
      using body_home_distance [of r s] by simp
    have "min s (get_home_distance r) \<le> 0" using neg by simp
    with d far have "1 / 2 < get_home_distance (return_home_body s r)" by linarith
    moreover from eq far have "f s (return_home_body s r) (k + 1) = Some y"
      by simp
    ultimately show False using IH neg by blast
  qed
qed

lemma loop_diverges:
  assumes "s \<le> 0" "1 / 2 < get_home_distance r"
  shows "return_home_loop s r k = None"
proof (cases "return_home_loop s r k")
  case None then show ?thesis .
next
  case (Some y)
  with loop_diverges_aux [OF Some] assms show ?thesis by blast
qed

lemma loop_count:
  assumes "0 < s"
  shows "n = nat \<lceil>(get_home_distance r - 1 / 2) / s\<rceil> \<Longrightarrow>
    return_home_loop s r k = Some (k + n, (return_home_body s ^^ n) r)"
proof (induction n arbitrary: r k)
  case 0
  then have "\<lceil>(get_home_distance r - 1 / 2) / s\<rceil> \<le> 0" by simp
  then have "(get_home_distance r - 1 / 2) / s \<le> 0" by (simp add: ceiling_le_iff)
  then have "get_home_distance r \<le> 1 / 2" using assms by (simp add: field_simps)
  then show ?case by (subst return_home_loop.simps) simp
next
  case (Suc n)
  define D where "D = get_home_distance r"
  define q where "q = (D - 1 / 2) / s"
  have cq: "\<lceil>q\<rceil> = int n + 1" using Suc.prems by (simp add: q_def D_def)
  then have "int n < \<lceil>q\<rceil>" by simp
  then have "real n < q" by (simp add: less_ceiling_iff)
  then have "0 < q" using of_nat_0_le_iff [of n, where ?'a = real] by linarith
  then have far: "1 / 2 < D" using assms by (simp add: q_def field_simps)
  have d': "get_home_distance (return_home_body s r) = D - min s D"
    using body_home_distance [of r s] far by (simp add: D_def)
  have "nat \<lceil>(get_home_distance (return_home_body s r) - 1 / 2) / s\<rceil> = n"
  proof (cases "s \<le> D")
    case True
    then have "(get_home_distance (return_home_body s r) - 1 / 2) / s = q - 1"
      using d' assms by (simp add: q_def field_simps)
    then show ?thesis using cq by simp
  next
    case False
    then have z: "get_home_distance (return_home_body s r) = 0" using d' by simp
    have "q \<le> 1" using False far assms by (simp add: q_def field_simps)
    then have "\<lceil>q\<rceil> \<le> 1" by (simp add: ceiling_le_iff)
    then have "n = 0" using cq by simp
    moreover have "(0 - 1 / 2) / s \<le> 0" using assms by (simp add: field_simps)
    then have "\<lceil>(0 - 1 / 2) / s\<rceil> \<le> 0" by (simp add: ceiling_le_iff)
    ultimately show ?thesis using z by simp
  qed
  then have "return_home_loop s (return_home_body s r) (k + 1) =
      Some (k + 1 + n, (return_home_body s ^^ n) (return_home_body s r))"
    using Suc.IH [of "return_home_body s r" "k + 1"] by simp
  then show ?case using far
    by (subst return_home_loop.simps) (simp add: D_def funpow_swap1)
qed

lemma linalg_norm_axis: "linalg_norm (x, 0) = \<bar>x\<bar>"
  by (simp add: linalg_norm_def)

lemma iterate_home_distance:
  assumes "0 < s"
  shows "k < nat \<lceil>(get_home_distance r - 1 / 2) / s\<rceil> \<Longrightarrow>
    get_home_distance ((return_home_body s ^^ k) r) = get_home_distance r - real k * s \<and>
    1 / 2 < get_home_distance ((return_home_body s ^^ k) r)"
proof (induction k)
  case 0
  then have "0 < \<lceil>(get_home_distance r - 1 / 2) / s\<rceil>" by simp
  then have "0 < (get_home_distance r - 1 / 2) / s" by (simp add: less_ceiling_iff)
  then show ?case using assms by (simp add: field_simps)
next
  case (Suc k)
  define D where "D = get_home_distance r"
  define Dk where "Dk = get_home_distance ((return_home_body s ^^ k) r)"
  have IH: "Dk = D - real k * s" "1 / 2 < Dk"
    using Suc by (simp_all add: D_def Dk_def)
  have "int (Suc k) < \<lceil>(D - 1 / 2) / s\<rceil>" using Suc.prems by (simp add: D_def)
  then have "real (Suc k) < (D - 1 / 2) / s" by (simp add: less_ceiling_iff)
  then have far: "1 / 2 < D - real (Suc k) * s" using assms by (simp add: field_simps)
  then have "s < Dk" using IH(1) by (simp add: algebra_simps)
  moreover have "get_home_distance (return_home_body s ((return_home_body s ^^ k) r)) =
      Dk - min s Dk"
    using body_home_distance [of "(return_home_body s ^^ k) r" s] IH(2) by (simp add: Dk_def)
  ultimately have "get_home_distance ((return_home_body s ^^ Suc k) r) = D - real (Suc k) * s"
    using IH(1) by (simp add: algebra_simps)
  with far show ?case by (simp add: D_def)
qed

lemma body_decreases:
  assumes "0 < s" "1 / 2 < get_home_distance r"
  shows "get_home_distance (return_home_body s r) < get_home_distance r"
  using body_home_distance [of r s] assms by simp

lemma loop_final_distance:
  assumes "return_home_loop s r k = Some y"
  shows "get_home_distance (snd y) \<le> 1 / 2"
proof (rule return_home_loop.raw_induct
    [where P = "\<lambda>s r k y. get_home_distance (snd y) \<le> 1 / 2", OF _ assms])
  fix f :: "real \<Rightarrow> AntInspiredRover \<Rightarrow> nat \<Rightarrow> (nat \<times> AntInspiredRover) option"
  fix s r k y
  assume IH: "\<And>s r k y. f s r k = Some y \<Longrightarrow> get_home_distance (snd y) \<le> 1 / 2"
  assume eq: "(if 1 / 2 < get_home_distance r then f s (return_home_body s r) (k + 1)
      else Some (k, r)) = Some y"
  show "get_home_distance (snd y) \<le> 1 / 2"
  proof (cases "1 / 2 < get_home_distance r")
    case True
    with eq IH show ?thesis by simp
  next
    case False
    with eq show ?thesis by auto
  qed
qed

lemma step_count_bound:
  assumes "0 < s"
  shows "nat \<lceil>(D - 1 / 2) / s\<rceil> \<le> nat \<lceil>D / s\<rceil>"
proof -
  have "(D - 1 / 2) / s \<le> D / s" using assms by (simp add: field_simps)
  then have "\<lceil>(D - 1 / 2) / s\<rceil> \<le> \<lceil>D / s\<rceil>" by (rule ceiling_mono)
  then show ?thesis by simp
qed

lemma fresh_move_home_distance:
  "get_home_distance (move_forward d (AntInspiredRover_init (0, 0) nl)) = \<bar>d\<bar>"
  by (simp add: get_home_distance_def move_forward_def AntInspiredRover_init_def Let_def
      vsub_def linalg_norm_axis)

section \<open>Invariants of call sequences\<close>

lemma align_to_sun_Inr:
  assumes "align_to_sun t r g = Inr (r', g')"
  shows "r' = r\<lparr>heading := sun_azimuth (sensor r) + noise_level (sensor r) * variates g (drawn g)
            + deg2rad t\<rparr> \<and> g' = g\<lparr>drawn := drawn g + 1\<rparr> \<and> 0 \<le> noise_level (sensor r)"
  using assms
  by (auto simp: align_to_sun_def get_sun_direction_def random_normal_def Let_def
      split: if_splits)

lemma exec_command_cases:
  assumes "exec_command c (r, g) = Inr (r', g')"
  shows "(\<exists>d. c = MoveForward d \<and> r' = move_forward d r \<and> g' = g) \<or>
         (\<not> is_move c \<and> position r' = position r \<and> home r' = home r \<and>
          home_vector r' = home_vector r \<and> distance_traveled r' = distance_traveled r \<and>
          path_history r' = path_history r \<and> home_vector_history r' = home_vector_history r)"
proof (cases c)
  case (AlignToSun t)
  with assms have "align_to_sun t r g = Inr (r', g')" by simp
  from align_to_sun_Inr [OF this] AlignToSun show ?thesis by simp
qed (use assms in \<open>auto simp: turn_def navigate_home_def Let_def\<close>)

lemma move_forward_path_integrated:
  "path_integrated r \<Longrightarrow> path_integrated (move_forward d r)"
  by (simp add: path_integrated_def move_forward_def Let_def vsub_def vadd_def)

lemma move_forward_logged: "logged (move_forward d r)"
  by (simp add: logged_def move_forward_def Let_def)

lemma exec_command_path_integrated:
  assumes "exec_command c (r, g) = Inr (r', g')" "path_integrated r"
  shows "path_integrated r'"
  using exec_command_cases [OF assms(1)] assms(2)
  by (auto simp: move_forward_path_integrated) (simp add: path_integrated_def)

lemma run_commands_path_integrated:
  "run_commands cs (r, g) = Inr (r', g') \<Longrightarrow> path_integrated r \<Longrightarrow> path_integrated r'"
proof (induction cs arbitrary: r g)
  case Nil
  then show ?case by simp
next
  case (Cons c cs)
  then obtain r1 g1 where e: "exec_command c (r, g) = Inr (r1, g1)"
    and rest: "run_commands cs (r1, g1) = Inr (r', g')"
    by (auto split: sum.splits)
  from exec_command_path_integrated [OF e Cons.prems(2)] Cons.IH [OF rest] show ?case by blast
qed

lemma init_path_integrated: "path_integrated (AntInspiredRover_init p nl)"
  by (simp add: path_integrated_def AntInspiredRover_init_def vsub_def)

lemma run_turn_or_move:
  "list_all turn_or_move cs \<Longrightarrow> \<exists>r'. run_commands cs (r, g) = Inr (r', g)"
proof (induction cs arbitrary: r)
  case Nil
  then show ?case by simp
next
  case (Cons c cs)
  then show ?case by (cases c) simp_all
qed

lemma exec_command_odometer:
  assumes "exec_command c (r, g) = Inr (r', g')"
  shows "distance_traveled r' = distance_traveled r + sum_list (move_distances [c])"
  using exec_command_cases [OF assms]
  by (cases c) (auto simp: move_forward_def Let_def)

lemma move_distances_Cons:
  "move_distances (c # cs) = move_distances [c] @ move_distances cs"
  by (cases c) simp_all

lemma move_distances_append:
  "move_distances (cs @ cs') = move_distances cs @ move_distances cs'"
proof (induction cs)
  case Nil
  then show ?case by simp
next
  case (Cons c cs)
  then show ?case
    using move_distances_Cons [of c "cs @ cs'"] move_distances_Cons [of c cs] by simp
qed

lemma run_commands_odometer:
  "run_commands cs (r, g) = Inr (r', g') \<Longrightarrow>
   distance_traveled r' = distance_traveled r + sum_list (move_distances cs)"
proof (induction cs arbitrary: r g)
  case Nil
  then show ?case by simp
next
  case (Cons c cs)
  then obtain r1 g1 where e: "exec_command c (r, g) = Inr (r1, g1)"
    and rest: "run_commands cs (r1, g1) = Inr (r', g')"
    by (auto split: sum.splits)
  from exec_command_odometer [OF e] Cons.IH [OF rest] move_distances_Cons [of c cs]
  show ?case by simp
qed

lemma sum_list_nonneg_real: "\<forall>d\<in>set ds. 0 \<le> d \<Longrightarrow> 0 \<le> sum_list (ds :: real list)"
  by (induction ds) simp_all

lemma exec_command_logged:
  assumes "exec_command c (r, g) = Inr (r', g')" "logged r"
  shows "logged r' \<and>
    length (path_history r') = length (path_history r) + length (move_distances [c]) \<and>
    length (home_vector_history r') = length (home_vector_history r) + length (move_distances [c])"
  using exec_command_cases [OF assms(1)] assms(2)
  by (cases c) (auto simp: move_forward_logged, auto simp: move_forward_def Let_def logged_def)

lemma run_commands_logged:
  "run_commands cs (r, g) = Inr (r', g') \<Longrightarrow> logged r \<Longrightarrow>
   logged r' \<and>
   length (path_history r') = length (path_history r) + length (move_distances cs) \<and>
   length (home_vector_history r') = length (home_vector_history r) + length (move_distances cs)"
proof (induction cs arbitrary: r g)
  case Nil
  then show ?case by simp
next
  case (Cons c cs)
  then obtain r1 g1 where e: "exec_command c (r, g) = Inr (r1, g1)"
    and rest: "run_commands cs (r1, g1) = Inr (r', g')"
    by (auto split: sum.splits)
  from exec_command_logged [OF e Cons.prems(2)] Cons.IH [OF rest]
    move_distances_Cons [of c cs]
  show ?case by simp
qed

lemma init_logged: "logged (AntInspiredRover_init p nl)"
  by (simp add: logged_def AntInspiredRover_init_def)

lemma execute_foraging_run_commands:
  "run_commands (foraging_commands moves) (r, g) = Inr (execute_foraging_run moves r, g)"
proof (induction moves arbitrary: r)
  case Nil
  show ?case by (simp add: execute_foraging_run_def)
next
  case (Cons m moves)
  obtain a d where m: "m = (a, d)" by (cases m)
  have "run_commands (foraging_commands (m # moves)) (r, g) =
      run_commands (foraging_commands moves) (move_forward d (turn a r), g)"
    by (simp add: m)
  also have "\<dots> = Inr (execute_foraging_run moves (move_forward d (turn a r)), g)"
    by (rule Cons.IH)
  finally show ?case by (simp add: execute_foraging_run_def m)
qed

lemma run_commands_append:
  "run_commands cs w = Inr w' \<Longrightarrow> run_commands (cs @ cs') w = run_commands cs' w'"
  by (induction cs arbitrary: w) (auto split: sum.splits)

lemma return_home_body_commands:
  "run_commands [NavigateHome, MoveForward (min s (get_home_distance (navigate_home r)))] (r, g) =
     Inr (return_home_body s r, g)"
  by (simp add: return_home_body_def Let_def)

lemma return_home_iterate_commands:
  "\<exists>cs. run_commands cs (r, g) = Inr ((return_home_body s ^^ n) r, g) \<and>
        length (move_distances cs) = n"
proof (induction n)
  case 0
  have "run_commands [] (r, g) = Inr ((return_home_body s ^^ 0) r, g) \<and>
      length (move_distances []) = 0" by simp
  then show ?case by blast
next
  case (Suc n)
  then obtain cs where cs: "run_commands cs (r, g) = Inr ((return_home_body s ^^ n) r, g)"
    "length (move_distances cs) = n" by blast
  define r1 where "r1 = (return_home_body s ^^ n) r"
  define step where "step = [NavigateHome, MoveForward (min s (get_home_distance (navigate_home r1)))]"
  have "run_commands (cs @ step) (r, g) = Inr ((return_home_body s ^^ Suc n) r, g)"
    using run_commands_append [OF cs(1), of step] return_home_body_commands [of s r1 g]
    by (simp add: r1_def step_def)
  moreover have "length (move_distances (cs @ step)) = Suc n"
    using cs(2) by (simp add: move_distances_append step_def)
  ultimately show ?case by blast
qed



lemma sin_one_pos: "0 < sin (1::real)"
proof -
  have "(1::real) < pi" using pi_ge_two by linarith
  then show ?thesis by (simp add: sin_gt_zero)
qed

section \<open>Rounding at the values used below\<close>

lemma round_f64_binade:
  assumes "2 powr of_int e \<le> \<bar>x\<bar>" "\<bar>x\<bar> < 2 powr of_int (e + 1)"
  shows "round_f64 x =
    of_int (round_half_even (x / 2 powr of_int (e - 52))) * 2 powr of_int (e - 52)"
proof -
  have "(0::real) < 2 powr of_int e" by simp
  with assms(1) have pos: "0 < \<bar>x\<bar>" by linarith
  then have "\<lfloor>log 2 \<bar>x\<bar>\<rfloor> = e"
    using assms by (simp add: floor_log_eq_powr_iff)
  then show ?thesis using pos by (simp add: round_f64_def Let_def)
qed

lemma round_f64_zero: "round_f64 0 = 0"
  by (simp add: round_f64_def)

lemma round_f64_one: "round_f64 1 = 1"
  using round_f64_binade [of 0 1] by (simp add: round_half_even_def powr_minus field_simps)

lemma round_f64_minus_one: "round_f64 (- 1) = - 1"
  using round_f64_binade [of 0 "- 1"] by (simp add: round_half_even_def powr_minus field_simps)

lemma round_f64_big: "round_f64 10000000000000000 = 10000000000000000"
  using round_f64_binade [of 53 10000000000000000] by (simp add: round_half_even_def)

lemma round_f64_big_plus_one: "round_f64 10000000000000001 = 10000000000000000"
  using round_f64_binade [of 53 10000000000000001] by (simp add: round_half_even_def)

lemma cos_f64_zero: "cos_f64 0 = 1"
  by (simp add: cos_f64_def round_f64_one)

lemma sin_f64_zero: "sin_f64 0 = 0"
  by (simp add: sin_f64_def round_f64_zero)

lemma fresh_move_f64:
  "move_forward_f64 1 (AntInspiredRover_init_f64 (10000000000000000, 0) nl) =
     (AntInspiredRover_init (10000000000000000, 0) nl)
       \<lparr>position := (10000000000000000, 0),
        home_vector := (- 1, 0),
        distance_traveled := 1,
        path_history := [(10000000000000000, 0), (10000000000000000, 0)],
        home_vector_history := [(0, 0), (- 1, 0)]\<rparr>"
  by (simp add: move_forward_f64_def AntInspiredRover_init_f64_def AntInspiredRover_init_def
      Let_def cos_f64_zero sin_f64_zero round_f64_zero round_f64_one round_f64_minus_one
      round_f64_big round_f64_big_plus_one)

section \<open>The claims\<close>

text \<open>
  Claim C1, as amended. Over exact arithmetic: for a rover constructed at any start position,
  every finite sequence of \<open>turn\<close> and \<open>move_forward\<close> calls, with any angles and
  distances, runs to its end without raising and leaves \<open>home_vector = home - position\<close>
  exactly. Every prefix of such a sequence is such a sequence, so the equation holds after
  every call. In double precision no relative tolerance is promised for every start position.
\<close>

theorem home_vector_invariant:
  assumes "list_all turn_or_move cs"
  shows "\<exists>r. run_commands cs (AntInspiredRover_init start_position sensor_noise, g) = Inr (r, g) \<and>
             home_vector r = vsub (home r) (position r)"
proof -
  from run_turn_or_move [OF assms] obtain r
    where r: "run_commands cs (AntInspiredRover_init start_position sensor_noise, g) = Inr (r, g)"
    by blast
  from run_commands_path_integrated [OF r init_path_integrated]
  show ?thesis using r by (auto simp: path_integrated_def)
qed

theorem home_vector_invariant_witness:
  "list_all turn_or_move [Turn 90, MoveForward 2] \<and>
   (\<exists>r. run_commands [Turn 90, MoveForward 2]
          (AntInspiredRover_init (1, 2) (1 / 20), \<lparr>variates = of_nat, drawn = 0\<rparr>)
        = Inr (r, \<lparr>variates = of_nat, drawn = 0\<rparr>) \<and>
        home_vector r = vsub (home r) (position r))"
  using home_vector_invariant [of "[Turn 90, MoveForward 2]" "(1, 2)" "1 / 20"
      "\<lparr>variates = of_nat, drawn = 0\<rparr>"]
  by simp

text \<open>
  In double precision the equation fails by more than any relative tolerance: a rover
  constructed at \<open>(1e16, 0)\<close> and moved forward by \<open>1\<close> keeps its position, because
  \<open>1e16 + 1\<close> rounds to \<open>1e16\<close>, while the home vector becomes \<open>(-1, 0)\<close>; the difference of
  home and position is \<open>(0, 0)\<close>.
\<close>

theorem home_vector_invariant_counterexample:
  "home_vector (move_forward_f64 1 (AntInspiredRover_init_f64 (10000000000000000, 0) (1 / 20)))
     = (- 1, 0) \<and>
   home (move_forward_f64 1 (AntInspiredRover_init_f64 (10000000000000000, 0) (1 / 20)))
     = (10000000000000000, 0) \<and>
   position (move_forward_f64 1 (AntInspiredRover_init_f64 (10000000000000000, 0) (1 / 20)))
     = (10000000000000000, 0) \<and>
   \<not> within_relative_tolerance (1 / 1000000000)
       (fst (home_vector
         (move_forward_f64 1 (AntInspiredRover_init_f64 (10000000000000000, 0) (1 / 20)))))
       (round_f64
         (fst (home (move_forward_f64 1 (AntInspiredRover_init_f64 (10000000000000000, 0) (1 / 20))))
          - fst (position
             (move_forward_f64 1 (AntInspiredRover_init_f64 (10000000000000000, 0) (1 / 20))))))"
  by (simp add: fresh_move_f64 AntInspiredRover_init_def within_relative_tolerance_def
      round_f64_zero)

text \<open>
  Claim C2, as amended. For every rover state with home distance \<open>D\<close> and every positive
  step size, \<open>execute_return_home\<close> returns. It returns the number of iterations of its
  loop, which is \<open>0\<close> when \<open>D \<le> 0.5\<close> and \<open>ceil ((D - 0.5) / step_size)\<close> otherwise, and
  so at most \<open>ceil (D / step_size)\<close>. The home distance is above \<open>0.5\<close> before each
  iteration, strictly decreases in each iteration, and is at most \<open>0.5\<close> at the end.
\<close>

theorem return_home_terminates:
  assumes "0 < step_size" and "n = nat \<lceil>(get_home_distance r - 1 / 2) / step_size\<rceil>"
  shows "execute_return_home step_size r = Some (n, (return_home_body step_size ^^ n) r) \<and>
         n \<le> nat \<lceil>get_home_distance r / step_size\<rceil> \<and>
         get_home_distance ((return_home_body step_size ^^ n) r) \<le> 1 / 2 \<and>
         (\<forall>k<n. 1 / 2 < get_home_distance ((return_home_body step_size ^^ k) r) \<and>
                get_home_distance ((return_home_body step_size ^^ Suc k) r)
                  < get_home_distance ((return_home_body step_size ^^ k) r))"
proof -
  have run: "execute_return_home step_size r = Some (n, (return_home_body step_size ^^ n) r)"
    using loop_count [OF assms(1) assms(2), of 0] by (simp add: execute_return_home_def)
  then have fin: "get_home_distance ((return_home_body step_size ^^ n) r) \<le> 1 / 2"
    using loop_final_distance [of step_size r 0 "(n, (return_home_body step_size ^^ n) r)"]
    by (simp add: execute_return_home_def)
  have dec: "1 / 2 < get_home_distance ((return_home_body step_size ^^ k) r) \<and>
      get_home_distance ((return_home_body step_size ^^ Suc k) r)
        < get_home_distance ((return_home_body step_size ^^ k) r)" if "k < n" for k
  proof -
    from iterate_home_distance [OF assms(1), of k r] that assms(2)
    have far: "1 / 2 < get_home_distance ((return_home_body step_size ^^ k) r)" by simp
    from body_decreases [OF assms(1) far] far show ?thesis by simp
  qed
  from run fin dec step_count_bound [OF assms(1)] assms(2) show ?thesis by blast
qed

theorem return_home_terminates_witness:
  "execute_return_home 1 (move_forward (5 / 4) (AntInspiredRover_init (0, 0) 0)) =
     Some (1, return_home_body 1 (move_forward (5 / 4) (AntInspiredRover_init (0, 0) 0))) \<and>
   get_home_distance
     (return_home_body 1 (move_forward (5 / 4) (AntInspiredRover_init (0, 0) 0))) \<le> 1 / 2 \<and>
   get_home_distance
     (return_home_body 1 (move_forward (5 / 4) (AntInspiredRover_init (0, 0) 0)))
     < get_home_distance (move_forward (5 / 4) (AntInspiredRover_init (0, 0) 0))"
  using return_home_terminates [of 1 1 "move_forward (5 / 4) (AntInspiredRover_init (0, 0) 0)"]
  by (simp add: fresh_move_home_distance)

text \<open>
  From a home distance of \<open>1.25\<close> and with step size \<open>1\<close> the loop runs once, while
  \<open>ceil (1.25 / 1)\<close> is \<open>2\<close>: after one step the distance is \<open>0.25\<close>, which is not above
  the arrival threshold.
\<close>

theorem return_home_terminates_counterexample:
  "map_option fst
     (execute_return_home 1 (move_forward (5 / 4) (AntInspiredRover_init (0, 0) 0))) = Some 1 \<and>
   \<lceil>get_home_distance (move_forward (5 / 4) (AntInspiredRover_init (0, 0) 0)) / 1\<rceil> = 2"
proof -
  have "(1::nat) = nat \<lceil>(get_home_distance (move_forward (5 / 4) (AntInspiredRover_init (0, 0) 0))
      - 1 / 2) / 1\<rceil>"
    by (simp add: fresh_move_home_distance)
  from loop_count [OF _ this, of 0] show ?thesis
    by (simp add: execute_return_home_def fresh_move_home_distance)
qed

text \<open>
  Claim C3, as amended. \<open>execute_return_home\<close> does not validate its step size and raises
  nothing. With a step size that is zero or negative it returns \<open>0\<close> at once, leaving the
  whole rover state as it was, when the home distance is at most \<open>0.5\<close>; otherwise its loop
  never ends.
\<close>

theorem return_home_unvalidated:
  assumes "step_size \<le> 0"
  shows "execute_return_home step_size r =
    (if get_home_distance r \<le> 1 / 2 then Some (0, r) else None)"
proof (cases "get_home_distance r \<le> 1 / 2")
  case True
  then show ?thesis
    unfolding execute_return_home_def by (subst return_home_loop.simps) simp
next
  case False
  then show ?thesis
    using loop_diverges [OF assms, of r 0] by (simp add: execute_return_home_def)
qed

theorem return_home_unvalidated_witness:
  "execute_return_home 0 (AntInspiredRover_init (0, 0) (1 / 20)) =
     Some (0, AntInspiredRover_init (0, 0) (1 / 20)) \<and>
   execute_return_home (- 1) (move_forward 1 (AntInspiredRover_init (0, 0) (1 / 20))) = None"
  using return_home_unvalidated [of 0 "AntInspiredRover_init (0, 0) (1 / 20)"]
    return_home_unvalidated [of "- 1" "move_forward 1 (AntInspiredRover_init (0, 0) (1 / 20))"]
  by (simp add: fresh_move_home_distance)
     (simp add: get_home_distance_def AntInspiredRover_init_def linalg_norm_axis)

text \<open>
  With step size \<open>0\<close> a fresh rover returns \<open>0\<close> normally, and a rover one metre from home
  never returns.
\<close>

theorem return_home_unvalidated_counterexample:
  "execute_return_home 0 (AntInspiredRover_init (0, 0) (1 / 20)) =
     Some (0, AntInspiredRover_init (0, 0) (1 / 20)) \<and>
   execute_return_home 0 (move_forward 1 (AntInspiredRover_init (0, 0) (1 / 20))) = None"
proof -
  have "get_home_distance (AntInspiredRover_init (0, 0) (1 / 20)) \<le> 1 / 2"
    by (simp add: get_home_distance_def AntInspiredRover_init_def linalg_norm_axis)
  then have a: "execute_return_home 0 (AntInspiredRover_init (0, 0) (1 / 20)) =
     Some (0, AntInspiredRover_init (0, 0) (1 / 20))"
    unfolding execute_return_home_def by (subst return_home_loop.simps) simp
  have "1 / 2 < get_home_distance (move_forward 1 (AntInspiredRover_init (0, 0) (1 / 20)))"
    by (simp add: fresh_move_home_distance)
  from loop_diverges [OF _ this, of 0 0] a show ?thesis
    by (simp add: execute_return_home_def)
qed

text \<open>
  Claim C4, as amended. The sensor has no operation that returns an angle together with its
  vector. With a non-negative noise level, \<open>get_sun_direction\<close> draws once and returns the
  noisy angle only; \<open>get_sun_vector\<close> draws once and returns only the unit vector
  \<open>(cos a, sin a)\<close> of the noisy angle \<open>a\<close> of its own draw. A vector read after an angle
  comes from the next draw.
\<close>

theorem sensor_readings:
  assumes "0 \<le> noise_level s"
  shows "get_sun_direction s g =
           Inr (sun_azimuth s + noise_level s * variates g (drawn g), g\<lparr>drawn := drawn g + 1\<rparr>) \<and>
         get_sun_vector s g =
           Inr ((cos (sun_azimuth s + noise_level s * variates g (drawn g)),
                 sin (sun_azimuth s + noise_level s * variates g (drawn g))),
                g\<lparr>drawn := drawn g + 1\<rparr>) \<and>
         get_sun_vector s (g\<lparr>drawn := drawn g + 1\<rparr>) =
           Inr ((cos (sun_azimuth s + noise_level s * variates g (drawn g + 1)),
                 sin (sun_azimuth s + noise_level s * variates g (drawn g + 1))),
                g\<lparr>drawn := drawn g + 2\<rparr>)"
  using assms by (simp add: get_sun_vector_def get_sun_direction_def random_normal_def)

theorem sensor_readings_witness:
  "get_sun_direction (PolarizedLightSensor_init 1) \<lparr>variates = of_nat, drawn = 0\<rparr> =
     Inr (0, \<lparr>variates = of_nat, drawn = 1\<rparr>) \<and>
   get_sun_vector (PolarizedLightSensor_init 1) \<lparr>variates = of_nat, drawn = 0\<rparr> =
     Inr ((1, 0), \<lparr>variates = of_nat, drawn = 1\<rparr>) \<and>
   get_sun_vector (PolarizedLightSensor_init 1) \<lparr>variates = of_nat, drawn = 1\<rparr> =
     Inr ((cos 1, sin 1), \<lparr>variates = of_nat, drawn = 2\<rparr>)"
  using sensor_readings [of "PolarizedLightSensor_init 1" "\<lparr>variates = of_nat, drawn = 0\<rparr>"]
  by (simp add: PolarizedLightSensor_init_def)

text \<open>
  With noise level \<open>1\<close> and a generator whose first two variates are \<open>0\<close> and \<open>1\<close>, the
  angle read first is \<open>0\<close> and the vector read next is not the unit vector of that angle.
\<close>

theorem sensor_readings_counterexample:
  "get_sun_direction (PolarizedLightSensor_init 1) \<lparr>variates = of_nat, drawn = 0\<rparr> =
     Inr (0, \<lparr>variates = of_nat, drawn = 1\<rparr>) \<and>
   get_sun_vector (PolarizedLightSensor_init 1) \<lparr>variates = of_nat, drawn = 1\<rparr> =
     Inr ((cos 1, sin 1), \<lparr>variates = of_nat, drawn = 2\<rparr>) \<and>
   (cos 1, sin 1) \<noteq> (cos 0, sin (0::real))"
  using sin_one_pos
  by (simp add: get_sun_vector_def get_sun_direction_def random_normal_def
      PolarizedLightSensor_init_def)

text \<open>
  Claim C5, as amended. Constructing a sensor never raises: with any noise level, negative or
  not, the constructor returns a sensor that stores the noise level as given and a sun
  azimuth of \<open>0\<close>. A negative noise level is rejected only when a reading is taken, by
  \<open>np.random.normal\<close>, with \<open>ValueError\<close>.
\<close>

theorem sensor_construction:
  "PolarizedLightSensor_init nl = \<lparr>noise_level = nl, sun_azimuth = 0\<rparr> \<and>
   get_sun_direction (PolarizedLightSensor_init nl) g =
     (if nl < 0 then Inl ValueError
      else Inr (nl * variates g (drawn g), g\<lparr>drawn := drawn g + 1\<rparr>))"
  by (simp add: PolarizedLightSensor_init_def get_sun_direction_def random_normal_def)

text \<open>
  Construction with noise level \<open>-1\<close> returns a sensor.
\<close>

theorem sensor_construction_counterexample:
  "PolarizedLightSensor_init (- 1) = \<lparr>noise_level = - 1, sun_azimuth = 0\<rparr>"
  by (simp add: PolarizedLightSensor_init_def)

text \<open>
  Claim C6. \<open>align_to_sun\<close> takes one reading and sets the heading to the reading plus the
  target angle in radians, but does not normalise it: on a fresh rover with noise level \<open>0\<close>
  and the sun at azimuth \<open>0\<close>, \<open>align_to_sun (-90)\<close> leaves the heading at \<open>-pi / 2\<close>, which
  is outside \<open>[0, 2 pi)\<close>.
\<close>

theorem align_to_sun_unnormalized:
  "align_to_sun (- 90) (AntInspiredRover_init (0, 0) 0) \<lparr>variates = of_nat, drawn = 0\<rparr> =
     Inr ((AntInspiredRover_init (0, 0) 0)\<lparr>heading := - (pi / 2)\<rparr>,
          \<lparr>variates = of_nat, drawn = 1\<rparr>) \<and>
   - (pi / 2) < (0::real)"
  by (simp add: align_to_sun_def get_sun_direction_def random_normal_def deg2rad_def Let_def
      AntInspiredRover_init_def PolarizedLightSensor_init_def)

text \<open>
  Claim C7, as amended. The odometer is the sum of the distances passed to \<open>move_forward\<close>,
  as they are given, whatever their signs; the other calls leave it unchanged. As long as
  every distance passed to \<open>move_forward\<close> is non-negative, the odometer is non-negative and
  no call decreases it.
\<close>

theorem odometer_monotone:
  assumes "run_commands cs (AntInspiredRover_init start_position sensor_noise, g) = Inr (r1, g1)"
    and "run_commands cs' (r1, g1) = Inr (r2, g2)"
  shows "distance_traveled r1 = sum_list (move_distances cs) \<and>
         distance_traveled r2 = sum_list (move_distances (cs @ cs')) \<and>
         ((\<forall>d\<in>set (move_distances (cs @ cs')). 0 \<le> d) \<longrightarrow>
            0 \<le> distance_traveled r1 \<and> distance_traveled r1 \<le> distance_traveled r2)"
proof -
  have a: "distance_traveled r1 = sum_list (move_distances cs)"
    using run_commands_odometer [OF assms(1)] by (simp add: AntInspiredRover_init_def)
  have b: "distance_traveled r2 = distance_traveled r1 + sum_list (move_distances cs')"
    using run_commands_odometer [OF assms(2)] .
  have c: "0 \<le> sum_list (move_distances cs) \<and> 0 \<le> sum_list (move_distances cs')"
    if "\<forall>d\<in>set (move_distances (cs @ cs')). 0 \<le> d"
    using that by (simp add: move_distances_append sum_list_nonneg_real)
  from a b c show ?thesis by (auto simp: move_distances_append)
qed

theorem odometer_monotone_witness:
  "run_commands [Turn 90, MoveForward 2]
     (AntInspiredRover_init (0, 0) (1 / 20), \<lparr>variates = of_nat, drawn = 0\<rparr>)
     = Inr (move_forward 2 (turn 90 (AntInspiredRover_init (0, 0) (1 / 20))),
            \<lparr>variates = of_nat, drawn = 0\<rparr>) \<and>
   run_commands [MoveForward 3]
     (move_forward 2 (turn 90 (AntInspiredRover_init (0, 0) (1 / 20))),
      \<lparr>variates = of_nat, drawn = 0\<rparr>)
     = Inr (move_forward 3 (move_forward 2 (turn 90 (AntInspiredRover_init (0, 0) (1 / 20)))),
            \<lparr>variates = of_nat, drawn = 0\<rparr>) \<and>
   move_distances ([Turn 90, MoveForward 2] @ [MoveForward 3]) = [2, 3] \<and>
   distance_traveled (move_forward 2 (turn 90 (AntInspiredRover_init (0, 0) (1 / 20)))) = 2 \<and>
   distance_traveled
     (move_forward 3 (move_forward 2 (turn 90 (AntInspiredRover_init (0, 0) (1 / 20))))) = 5 \<and>
   distance_traveled (move_forward 2 (turn 90 (AntInspiredRover_init (0, 0) (1 / 20))))
     \<le> distance_traveled
          (move_forward 3 (move_forward 2 (turn 90 (AntInspiredRover_init (0, 0) (1 / 20)))))"
  using odometer_monotone [of "[Turn 90, MoveForward 2]" "(0, 0)" "1 / 20"
      "\<lparr>variates = of_nat, drawn = 0\<rparr>"
      "move_forward 2 (turn 90 (AntInspiredRover_init (0, 0) (1 / 20)))"
      "\<lparr>variates = of_nat, drawn = 0\<rparr>"
      "[MoveForward 3]"
      "move_forward 3 (move_forward 2 (turn 90 (AntInspiredRover_init (0, 0) (1 / 20))))"
      "\<lparr>variates = of_nat, drawn = 0\<rparr>"]
  by simp

text \<open>
  A move by a negative distance decreases the odometer, below zero from a fresh rover.
\<close>

theorem odometer_monotone_counterexample:
  "distance_traveled (move_forward (- 1) (AntInspiredRover_init (0, 0) (1 / 20))) < 0 \<and>
   distance_traveled (move_forward (- 1) (AntInspiredRover_init (0, 0) (1 / 20)))
     < distance_traveled (AntInspiredRover_init (0, 0) (1 / 20))"
  by (simp add: move_forward_def AntInspiredRover_init_def Let_def)



text \<open>
  Claim C9. \<open>navigate_home\<close> sets the heading to \<open>get_home_direction ()\<close> and changes
  nothing else: position, home, home vector, odometer, both histories and the sensor stay as
  they were, and the generator is not used.
\<close>

theorem navigate_home_frame:
  "navigate_home r = r\<lparr>heading := get_home_direction r\<rparr> \<and>
   heading (navigate_home r) = get_home_direction r \<and>
   position (navigate_home r) = position r \<and>
   home (navigate_home r) = home r \<and>
   home_vector (navigate_home r) = home_vector r \<and>
   distance_traveled (navigate_home r) = distance_traveled r \<and>
   path_history (navigate_home r) = path_history r \<and>
   home_vector_history (navigate_home r) = home_vector_history r \<and>
   sensor (navigate_home r) = sensor r \<and>
   exec_command NavigateHome (r, g) = Inr (navigate_home r, g)"
  by (simp add: navigate_home_def Let_def)

text \<open>
  Claim C10. After any sequence of calls on a fresh rover that runs to its end, each history
  has one entry more than there were \<open>move_forward\<close> calls, and the last entries are the
  current position and home vector. One more call, if it is a \<open>move_forward\<close> (by any
  distance), appends the position and the home vector after the move to their histories;
  any other call leaves both histories as they were. \<open>execute_foraging_run\<close> and
  \<open>execute_return_home\<close> are such sequences of calls (\<open>execute_foraging_run_commands\<close>,
  \<open>return_home_iterate_commands\<close>).
\<close>

theorem trajectory_log:
  assumes "run_commands cs (AntInspiredRover_init start_position sensor_noise, g) = Inr (r, g1)"
    and "exec_command c (r, g1) = Inr (r', g')"
  shows "length (path_history r) = 1 + length (move_distances cs) \<and>
         length (home_vector_history r) = 1 + length (move_distances cs) \<and>
         last (path_history r) = position r \<and>
         last (home_vector_history r) = home_vector r \<and>
         (if is_move c
          then path_history r' = path_history r @ [position r'] \<and>
               home_vector_history r' = home_vector_history r @ [home_vector r']
          else path_history r' = path_history r \<and>
               home_vector_history r' = home_vector_history r)"
proof -
  from run_commands_logged [OF assms(1) init_logged]
  have a: "logged r"
    "length (path_history r) = 1 + length (move_distances cs)"
    "length (home_vector_history r) = 1 + length (move_distances cs)"
    by (simp_all add: AntInspiredRover_init_def)
  from exec_command_cases [OF assms(2)]
  have b: "if is_move c
          then path_history r' = path_history r @ [position r'] \<and>
               home_vector_history r' = home_vector_history r @ [home_vector r']
          else path_history r' = path_history r \<and>
               home_vector_history r' = home_vector_history r"
    by (auto simp: move_forward_def Let_def)
  from a b show ?thesis by (simp add: logged_def)
qed

theorem trajectory_log_witness:
  "run_commands [Turn 90, MoveForward 2, NavigateHome]
     (AntInspiredRover_init (0, 0) (1 / 20), \<lparr>variates = of_nat, drawn = 0\<rparr>)
     = Inr (navigate_home (move_forward 2 (turn 90 (AntInspiredRover_init (0, 0) (1 / 20)))),
            \<lparr>variates = of_nat, drawn = 0\<rparr>) \<and>
   length (path_history
     (navigate_home (move_forward 2 (turn 90 (AntInspiredRover_init (0, 0) (1 / 20)))))) = 2 \<and>
   path_history (move_forward (- 1)
     (navigate_home (move_forward 2 (turn 90 (AntInspiredRover_init (0, 0) (1 / 20)))))) =
   path_history (navigate_home (move_forward 2 (turn 90 (AntInspiredRover_init (0, 0) (1 / 20)))))
     @ [position (move_forward (- 1)
     (navigate_home (move_forward 2 (turn 90 (AntInspiredRover_init (0, 0) (1 / 20))))))]"
  using trajectory_log [of "[Turn 90, MoveForward 2, NavigateHome]" "(0, 0)" "1 / 20"
      "\<lparr>variates = of_nat, drawn = 0\<rparr>"
      "navigate_home (move_forward 2 (turn 90 (AntInspiredRover_init (0, 0) (1 / 20))))"
      "\<lparr>variates = of_nat, drawn = 0\<rparr>"
      "MoveForward (- 1)"
      "move_forward (- 1)
         (navigate_home (move_forward 2 (turn 90 (AntInspiredRover_init (0, 0) (1 / 20)))))"
      "\<lparr>variates = of_nat, drawn = 0\<rparr>"]
  by simp

end
